theory Spec2Isabelle
  imports Main "HOL-Library.Monad_Syntax"
begin

unbundle bit_operations_syntax

section \<open>The logger package (src/lib/logger/logger.go)\<close>

text \<open>
  A run-time panic of the Go code (an index out of range) is the value \<open>None\<close>; a function
  that can panic returns an \<open>option\<close>. Go's \<open>int\<close> is taken at 64 bits: a value of
  type \<open>int\<close> is an Isabelle \<open>int\<close>, and the two places where the width can be seen
  (the conversion \<open>uint(i)\<close> and the decrement \<open>wid--\<close>) have the wrap-around
  written out.
\<close>

subsection \<open>Flags and priorities\<close>

definition Ldate :: int where "Ldate = 1"
definition Ltime :: int where "Ltime = 2"
definition Lmicroseconds :: int where "Lmicroseconds = 4"
definition Llongfile :: int where "Llongfile = 8"
definition Lshortfile :: int where "Lshortfile = 16"
definition Lsyslog :: int where "Lsyslog = 32"
definition LstdFlags :: int where "LstdFlags = Ldate OR Ltime"

text \<open>\<open>type Priority int\<close>: any integer can be stored, the constants name seven of them.\<close>

type_synonym Priority = int

definition LOG_NONE :: Priority where "LOG_NONE = 0"
definition LOG_DEBUG :: Priority where "LOG_DEBUG = 1"
definition LOG_INFO :: Priority where "LOG_INFO = 2"
definition LOG_WARNING :: Priority where "LOG_WARNING = 3"
definition LOG_ERR :: Priority where "LOG_ERR = 4"
definition LOG_CRIT :: Priority where "LOG_CRIT = 5"
definition LOG_EMERG :: Priority where "LOG_EMERG = 6"

subsection \<open>The Logger structure\<close>

text \<open>
  \<open>out\<close> is the destination; \<open>logch\<close> is the channel to the writing goroutine, held as
  the list of the strings sent on it so far, oldest first. The mutex guards single field
  reads and writes only and has no counterpart here.
\<close>

datatype Writer = FileWriter string | SyslogWriter | OtherWriter nat

record Logger =
  prio :: Priority
  prefix :: string
  flag :: int
  out :: Writer
  logch :: "string list"

text \<open>An \<open>error\<close> value: \<open>nil\<close>, or what \<open>errors.New\<close> builds.\<close>

datatype error = nil | errors_New string

subsection \<open>itoa\<close>

definition uint :: "int \<Rightarrow> nat" where
  "uint i = nat (i mod 2 ^ 64)"

definition wrap64 :: "int \<Rightarrow> int" where
  "wrap64 x = (x + 2 ^ 63) mod 2 ^ 64 - 2 ^ 63"

text \<open>\<open>byte(d) + '0'\<close> for a digit value.\<close>

definition digit :: "nat \<Rightarrow> char" where
  "digit d = char_of (d + of_char CHR ''0'')"

text \<open>
  The loop of \<open>itoa\<close> over the 32-byte buffer \<open>b\<close>: \<open>bp--; wid--; b[bp] = ...\<close>, then
  \<open>u /= 10\<close>. Writing below index 0 panics.
\<close>

function itoa_loop :: "nat \<Rightarrow> int \<Rightarrow> int \<Rightarrow> char list \<Rightarrow> (int \<times> char list) option" where
  "itoa_loop u wid bp b =
     (if u > 0 \<or> wid > 0 then
        (let bp' = bp - 1; wid' = wrap64 (wid - 1) in
         if bp' < 0 \<or> int (length b) \<le> bp' then None
         else itoa_loop (u div 10) wid' bp' (b[nat bp' := digit (u mod 10)]))
      else Some (bp, b))"
  by pat_completeness auto
termination
  by (relation "measure (\<lambda>(u, wid, bp, b). nat bp)") auto

declare itoa_loop.simps [simp del]

definition itoa :: "int \<Rightarrow> int \<Rightarrow> string option" where
  "itoa i wid =
     (let u = uint i in
      if u = 0 \<and> wid \<le> 1 then Some ''0''
      else case itoa_loop u wid 32 (replicate 32 (CHR 0x00)) of
             None \<Rightarrow> None
           | Some (bp, b) \<Rightarrow> Some (drop (nat bp) b))"

subsection \<open>formatHeader\<close>

text \<open>The quotient \<open>a / b\<close> of Go on integers, which truncates towards zero.\<close>

definition quo :: "int \<Rightarrow> int \<Rightarrow> int" where
  "quo a b = (if (a < 0) = (b < 0) then \<bar>a\<bar> div \<bar>b\<bar> else - (\<bar>a\<bar> div \<bar>b\<bar>))"

text \<open>What \<open>t.Date()\<close>, \<open>t.Clock()\<close> and \<open>t.Nanosecond()\<close> return for a \<open>time.Time\<close>.\<close>

record Time =
  Year :: int
  Month :: int
  Day :: int
  Hour :: int
  Minute :: int
  Second :: int
  Nanosecond :: int

definition formatHeader :: "Logger \<Rightarrow> Time \<Rightarrow> string option" where
  "formatHeader l t =
     (if flag l AND (Ldate OR Ltime OR Lmicroseconds) \<noteq> 0 then do {
        s \<leftarrow> (if flag l AND Ldate \<noteq> 0 then do {
               y \<leftarrow> itoa (Year t) 4;
               m \<leftarrow> itoa (Month t) 2;
               d \<leftarrow> itoa (Day t) 2;
               Some (y @ ''/'' @ m @ ''/'' @ d)
             } else Some []);
        s \<leftarrow> (if flag l AND (Ltime OR Lmicroseconds) \<noteq> 0 then do {
               hh \<leftarrow> itoa (Hour t) 2;
               mm \<leftarrow> itoa (Minute t) 2;
               ss \<leftarrow> itoa (Second t) 2;
               s \<leftarrow> Some (s @ '' '' @ hh @ '':'' @ mm @ '':'' @ ss);
               (if flag l AND Lmicroseconds \<noteq> 0 then do {
                  us \<leftarrow> itoa (quo (Nanosecond t) 1000) 6;
                  Some (s @ ''.'' @ us)
                } else Some s)
             } else Some s);
        Some (s @ '' '')
      } else Some [])"

subsection \<open>Output\<close>

text \<open>
  What the Go runtime and the clock give to one call: \<open>time.Now()\<close>, \<open>runtime.Caller\<close>
  (file and line, \<open>None\<close> when its \<open>ok\<close> is false), the program counters of the
  calling goroutine's stack as \<open>runtime.Callers\<close> sees them (index 0 is
  \<open>runtime.Callers\<close> itself), and \<open>runtime.FuncForPC\<close> with the function's name, file
  and line (\<open>None\<close> for its nil).
\<close>

record Runtime =
  Now :: Time
  Caller :: "int \<Rightarrow> (string \<times> int) option"
  Stack :: "nat list"
  FuncForPC :: "nat \<Rightarrow> (string \<times> string \<times> int) option"

text \<open>The verb \<open>%d\<close> of package fmt on an integer.\<close>

fun digs :: "nat \<Rightarrow> string" where
  "digs u = (if u = 0 then [] else digs (u div 10) @ [digit (u mod 10)])"

declare digs.simps [simp del]

definition decimal :: "nat \<Rightarrow> string" where
  "decimal n = (if n = 0 then ''0'' else digs n)"

definition fmt_d :: "int \<Rightarrow> string" where
  "fmt_d i = (if i < 0 then CHR ''-'' # decimal (nat (- i)) else decimal (nat i))"

text \<open>
  The loop \<open>for i := len(file) - 1; i > 0; i--\<close> that cuts \<open>file\<close> after its last slash;
  a slash at index 0 is not looked at.
\<close>

primrec short_loop :: "string \<Rightarrow> nat \<Rightarrow> string" where
  "short_loop file 0 = file"
| "short_loop file (Suc i) =
     (if file ! Suc i = CHR ''/'' then drop (Suc i + 1) file else short_loop file i)"

text \<open>Lines 280 to 307: the value of \<open>finfo\<close>, empty when nothing is added to \<open>buf\<close>.\<close>

definition Output_finfo :: "Runtime \<Rightarrow> Logger \<Rightarrow> int \<Rightarrow> string" where
  "Output_finfo rt l calldepth =
     (if calldepth > 0 then
        (if flag l AND (Lshortfile OR Llongfile) \<noteq> 0 then
           (let (file, line) = (case Caller rt calldepth of
                                  None \<Rightarrow> (''???'', 0)
                                | Some fl \<Rightarrow> fl);
                file = (if flag l AND Lshortfile \<noteq> 0
                        then short_loop file (length file - 1) else file)
            in ''('' @ file @ '':'' @ fmt_d line @ '') '')
         else [])
      else [])"

text \<open>Lines 272 to 314: the value of \<open>buf\<close> when it is sent, for a non-empty \<open>s\<close>.\<close>

definition Output_buf :: "Runtime \<Rightarrow> Logger \<Rightarrow> int \<Rightarrow> Priority \<Rightarrow> string \<Rightarrow> string option" where
  "Output_buf rt l calldepth p s = do {
     buf \<leftarrow> (if flag l AND Lsyslog = 0 then do {
              h \<leftarrow> formatHeader l (Now rt);
              Some (''<'' @ fmt_d p @ ''>:'' @ h)
            } else Some []);
     let buf = buf @ Output_finfo rt l calldepth;
     let buf = buf @ s;
     Some (if last s \<noteq> CHR 0x0A then buf @ [CHR 0x0A] else buf)
   }"

definition Output :: "Runtime \<Rightarrow> Logger \<Rightarrow> int \<Rightarrow> Priority \<Rightarrow> string \<Rightarrow> (error \<times> Logger) option" where
  "Output rt l calldepth p s =
     (if length s = 0 then Some (nil, l)
      else do {
        buf \<leftarrow> Output_buf rt l calldepth p s;
        Some (nil, l\<lparr>logch := logch l @ [buf]\<rparr>)
      })"

subsection \<open>Backtrace\<close>

definition runtime_Callers :: "Runtime \<Rightarrow> nat \<Rightarrow> nat \<Rightarrow> nat list" where
  "runtime_Callers rt skip cap = take cap (drop skip (Stack rt))"

text \<open>\<open>strings.Join\<close>.\<close>

fun Join :: "string list \<Rightarrow> string \<Rightarrow> string" where
  "Join [] sep = []"
| "Join [x] sep = x"
| "Join (x # y # ys) sep = x @ sep @ Join (y # ys) sep"

text \<open>The body of the loop: one frame as \<open>file:line [name]\<close>, or \<open>*unknown*\<close>.\<close>

definition frame_string :: "Runtime \<Rightarrow> nat \<Rightarrow> string" where
  "frame_string rt p =
     (case FuncForPC rt p of
        None \<Rightarrow> ''*unknown*''
      | Some (nm, file, line) \<Rightarrow> file @ '':'' @ fmt_d line @ '' ['' @ nm @ '']'')"

definition Backtrace :: "Runtime \<Rightarrow> Logger \<Rightarrow> int \<Rightarrow> Logger" where
  "Backtrace rt l depth =
     (let pc = runtime_Callers rt 3 64;
          n = int (length pc);
          n = (if depth = 0 \<or> depth > n then n else if n > depth then depth else n);
          v = map (\<lambda>i. frame_string rt (pc ! i)) [0 ..< nat n];
          v = v @ [[CHR 0x0A]];
          str = ''Backtrace:'' @ [CHR 0x0A] @ ''    '' @ Join v ([CHR 0x0A] @ ''    '')
      in l\<lparr>logch := logch l @ [str]\<rparr>)"

subsection \<open>The leveled methods\<close>

definition Loggable :: "Logger \<Rightarrow> Priority \<Rightarrow> bool" where
  "Loggable l p = (prio l \<ge> LOG_NONE \<and> p \<ge> prio l)"

text \<open>
  \<open>fmt.Sprintf\<close> is a parameter: it formats \<open>format\<close> with the arguments \<open>v\<close>, and what
  formatting does besides (the \<open>String\<close> and \<open>Format\<close> methods of the arguments run) is a
  change of a state \<open>'w\<close>. A method that returns gives the logger and that state back.
  How a method ends is a \<open>control\<close>: it returns, the process exits with a status, or
  \<open>panic\<close> is called with a value.
\<close>

type_synonym ('v, 'w) sprintf = "string \<Rightarrow> 'v \<Rightarrow> 'w \<Rightarrow> string \<times> 'w"

datatype control = Returns | Exits int | Panics string

definition Printf :: "Runtime \<Rightarrow> ('v, 'w) sprintf \<Rightarrow> Logger \<Rightarrow> string \<Rightarrow> 'v \<Rightarrow> 'w \<Rightarrow> (Logger \<times> 'w) option" where
  "Printf rt Sprintf l format v w =
     (case Sprintf format v w of (s, w') \<Rightarrow>
        do { (e, l') \<leftarrow> Output rt l 0 LOG_INFO s; Some (l', w') })"

definition Fatal :: "Runtime \<Rightarrow> ('v, 'w) sprintf \<Rightarrow> Logger \<Rightarrow> string \<Rightarrow> 'v \<Rightarrow> 'w \<Rightarrow> (control \<times> Logger \<times> 'w) option" where
  "Fatal rt Sprintf l format v w =
     (case Sprintf format v w of (s, w') \<Rightarrow>
        do {
          (e, l') \<leftarrow> Output rt l 2 LOG_EMERG s;
          let l'' = Backtrace rt l' 0;
          Some (Exits 1, l'', w')
        })"

definition Panic :: "Runtime \<Rightarrow> ('v, 'w) sprintf \<Rightarrow> Logger \<Rightarrow> string \<Rightarrow> 'v \<Rightarrow> 'w \<Rightarrow> (control \<times> Logger \<times> 'w) option" where
  "Panic rt Sprintf l format v w =
     (case Sprintf format v w of (s, w') \<Rightarrow>
        do {
          (e, l') \<leftarrow> Output rt l 2 LOG_EMERG s;
          let l'' = Backtrace rt l' 5;
          Some (Panics s, l'', w')
        })"

definition Crit :: "Runtime \<Rightarrow> ('v, 'w) sprintf \<Rightarrow> Logger \<Rightarrow> string \<Rightarrow> 'v \<Rightarrow> 'w \<Rightarrow> (Logger \<times> 'w) option" where
  "Crit rt Sprintf l format v w =
     (if Loggable l LOG_CRIT then
        (case Sprintf format v w of (s, w') \<Rightarrow>
           do { (e, l') \<leftarrow> Output rt l 2 LOG_CRIT s; Some (l', w') })
      else Some (l, w))"

text \<open>Line 403 of the source opens this method with \<open>eunc\<close>; it is read as \<open>func\<close>.\<close>

definition Error :: "Runtime \<Rightarrow> ('v, 'w) sprintf \<Rightarrow> Logger \<Rightarrow> string \<Rightarrow> 'v \<Rightarrow> 'w \<Rightarrow> (Logger \<times> 'w) option" where
  "Error rt Sprintf l format v w =
     (if Loggable l LOG_ERR then
        (case Sprintf format v w of (s, w') \<Rightarrow>
           do { (e, l') \<leftarrow> Output rt l 2 LOG_ERR s; Some (l', w') })
      else Some (l, w))"

definition Warn :: "Runtime \<Rightarrow> ('v, 'w) sprintf \<Rightarrow> Logger \<Rightarrow> string \<Rightarrow> 'v \<Rightarrow> 'w \<Rightarrow> (Logger \<times> 'w) option" where
  "Warn rt Sprintf l format v w =
     (if Loggable l LOG_WARNING then
        (case Sprintf format v w of (s, w') \<Rightarrow>
           do { (e, l') \<leftarrow> Output rt l 0 LOG_WARNING s; Some (l', w') })
      else Some (l, w))"

definition Info :: "Runtime \<Rightarrow> ('v, 'w) sprintf \<Rightarrow> Logger \<Rightarrow> string \<Rightarrow> 'v \<Rightarrow> 'w \<Rightarrow> (Logger \<times> 'w) option" where
  "Info rt Sprintf l format v w =
     (if Loggable l LOG_INFO then
        (case Sprintf format v w of (s, w') \<Rightarrow>
           do { (e, l') \<leftarrow> Output rt l 0 LOG_INFO s; Some (l', w') })
      else Some (l, w))"

definition Debug :: "Runtime \<Rightarrow> ('v, 'w) sprintf \<Rightarrow> Logger \<Rightarrow> string \<Rightarrow> 'v \<Rightarrow> 'w \<Rightarrow> (Logger \<times> 'w) option" where
  "Debug rt Sprintf l format v w =
     (if Loggable l LOG_DEBUG then
        (case Sprintf format v w of (s, w') \<Rightarrow>
           do { (e, l') \<leftarrow> Output rt l 2 LOG_DEBUG s; Some (l', w') })
      else Some (l, w))"

subsection \<open>Properties of a logger\<close>

definition Prio :: "Logger \<Rightarrow> Priority" where "Prio l = prio l"
definition SetPrio :: "Logger \<Rightarrow> Priority \<Rightarrow> Logger" where "SetPrio l p = l\<lparr>prio := p\<rparr>"
definition Flags :: "Logger \<Rightarrow> int" where "Flags l = flag l"
definition SetFlags :: "Logger \<Rightarrow> int \<Rightarrow> Logger" where "SetFlags l f = l\<lparr>flag := f\<rparr>"
definition Prefix :: "Logger \<Rightarrow> string" where "Prefix l = prefix l"
definition SetPrefix :: "Logger \<Rightarrow> string \<Rightarrow> Logger" where "SetPrefix l p = l\<lparr>prefix := p\<rparr>"

subsection \<open>Constructors\<close>

text \<open>
  What the constructors ask of the host: \<open>os.OpenFile\<close> with the flags and mode of
  \<open>NewFilelog\<close>, \<open>syslog.New(syslog.LOG_ERR, "")\<close> (each gives a writer, or the text of
  its error), and \<open>strings.ToUpper\<close>. A constructor returns the pair of Go, the logger
  (\<open>None\<close> for the nil pointer) and the error.
\<close>

record Host =
  OpenFile :: "string \<Rightarrow> string + Writer"
  syslog_New :: "string + Writer"
  ToUpper :: "string \<Rightarrow> string"

definition newLogger :: "Logger \<Rightarrow> Logger option \<times> error" where
  "newLogger ll = (Some (ll\<lparr>logch := []\<rparr>), nil)"

definition New :: "Writer \<Rightarrow> Priority \<Rightarrow> string \<Rightarrow> int \<Rightarrow> Logger option \<times> error" where
  "New outw p pre f = newLogger \<lparr>prio = p, prefix = pre, flag = f, out = outw, logch = []\<rparr>"

definition NewFilelog :: "Host \<Rightarrow> string \<Rightarrow> Priority \<Rightarrow> string \<Rightarrow> int \<Rightarrow> Logger option \<times> error" where
  "NewFilelog h file p pre f =
     (case OpenFile h file of
        Inl err \<Rightarrow>
          (None, errors_New (''Can'' @ [CHR 0x27] @ ''t open log file '' @ [CHR 0x27] @ file
                              @ [CHR 0x27] @ '': '' @ err))
      | Inr logfd \<Rightarrow>
          newLogger \<lparr>prio = p, prefix = pre, flag = f, out = logfd, logch = []\<rparr>)"

definition NewSyslog :: "Host \<Rightarrow> Priority \<Rightarrow> string \<Rightarrow> int \<Rightarrow> Logger option \<times> error" where
  "NewSyslog h p pre f =
     (case syslog_New h of
        Inl err \<Rightarrow>
          (None, errors_New (''Can'' @ [CHR 0x27] @ ''t open SYSLOG connection: '' @ err))
      | Inr wr \<Rightarrow>
          newLogger \<lparr>prio = p, prefix = pre, flag = f OR Lsyslog, out = wr, logch = []\<rparr>)"

definition NewLogger :: "Host \<Rightarrow> string \<Rightarrow> Priority \<Rightarrow> string \<Rightarrow> int \<Rightarrow> Logger option \<times> error" where
  "NewLogger h name p pre f =
     (if ToUpper h name = ''SYSLOG'' then NewSyslog h p pre f
      else NewFilelog h name p [] f)"

subsection \<open>Decimal rendering, as a reference for itoa\<close>

text \<open>
  \<open>decimal n\<close> above is the usual decimal numeral of \<open>n\<close>; \<open>zero_pad w s\<close> puts zeros
  in front of \<open>s\<close> until it has \<open>w\<close> characters, and none when it already has.
\<close>

definition zero_pad :: "nat \<Rightarrow> string \<Rightarrow> string" where
  "zero_pad w s = replicate (w - length s) CHR ''0'' @ s"

subsection \<open>A concrete logger, clock and stack\<close>

text \<open>
  The timestamp is the one of the comment in the source (\<open>2009/01/23 01:23:23.123123\<close>);
  the stack has the three frames that \<open>Backtrace\<close> skips and three above them, the last one
  without function information.
\<close>

definition ex_time :: Time where
  "ex_time = \<lparr>Year = 2009, Month = 1, Day = 23, Hour = 1, Minute = 23, Second = 23,
               Nanosecond = 123123000\<rparr>"

definition ex_runtime :: Runtime where
  "ex_runtime =
     \<lparr>Now = ex_time,
      Caller = (\<lambda>d. if d = 2 then Some (''/a/b/c/d.go'', 23) else None),
      Stack = [100, 101, 102, 103, 104, 105],
      FuncForPC = (\<lambda>p. if p = 103 then Some (''main.f'', ''/a/b/c/d.go'', 23)
                       else if p = 104 then Some (''main.main'', ''/a/b/c/d.go'', 40)
                       else None)\<rparr>"

definition ex_logger :: Logger where
  "ex_logger = \<lparr>prio = LOG_INFO, prefix = ''app'', flag = LstdFlags,
                 out = FileWriter ''/tmp/x.log'', logch = []\<rparr>"

text \<open>
  A \<open>Sprintf\<close> for a format without verbs and no arguments, where \<open>fmt.Sprintf\<close> returns
  the format itself; the state counts the calls.
\<close>

definition Sprintf_plain :: "(unit, nat) sprintf" where
  "Sprintf_plain format v w = (format, Suc w)"

text \<open>A host whose \<open>ToUpper\<close> maps the ASCII letters, as \<open>strings.ToUpper\<close> does on ASCII.\<close>

definition ascii_ToUpper :: "string \<Rightarrow> string" where
  "ascii_ToUpper s =
     map (\<lambda>c. if 97 \<le> (of_char c :: nat) \<and> (of_char c :: nat) \<le> 122
              then char_of ((of_char c :: nat) - 32) else c) s"

definition ex_host :: Host where
  "ex_host =
     \<lparr>OpenFile = (\<lambda>f. if f = ''/nonexistent/x.log'' then Inl ''no such file or directory''
                       else Inr (FileWriter f)),
      syslog_New = Inr SyslogWriter,
      ToUpper = ascii_ToUpper\<rparr>"

section \<open>Facts about itoa\<close>

lemmas flag_defs = Ldate_def Ltime_def Lmicroseconds_def Llongfile_def Lshortfile_def
  Lsyslog_def LstdFlags_def

lemmas prio_defs = LOG_NONE_def LOG_DEBUG_def LOG_INFO_def LOG_WARNING_def LOG_ERR_def
  LOG_CRIT_def LOG_EMERG_def

lemma digit_0: "digit 0 = CHR ''0''" by code_simp

lemma digs_0: "digs 0 = []" by (simp add: digs.simps)
lemma digs_pos: "0 < u \<Longrightarrow> digs u = digs (u div 10) @ [digit (u mod 10)]"
  by (subst digs.simps) simp

lemma length_digs: "u < 10 ^ k \<Longrightarrow> length (digs u) \<le> k"
proof (induction k arbitrary: u)
  case 0
  then show ?case by (simp add: digs_0)
next
  case (Suc k)
  show ?case
  proof (cases "u = 0")
    case True
    then show ?thesis by (simp add: digs_0)
  next
    case False
    from Suc.prems have "u div 10 < 10 ^ k" by (simp add: less_mult_imp_div_less mult.commute)
    from Suc.IH [OF this] False show ?thesis by (simp add: digs_pos)
  qed
qed

lemma pad_step:
  assumes "0 < u \<or> 0 < wid"
  shows "zero_pad (nat wid) (digs u) = zero_pad (nat (wid - 1)) (digs (u div 10)) @ [digit (u mod 10)]"
proof (cases "u = 0")
  case True
  with assms have w: "0 < wid" by simp
  then have "nat wid = Suc (nat (wid - 1))" by simp
  with True show ?thesis
    by (simp add: zero_pad_def digs_0 digit_0 replicate_append_same)
next
  case False
  have "nat wid - Suc (length (digs (u div 10))) = nat (wid - 1) - length (digs (u div 10))"
    by simp
  with False show ?thesis
    by (simp add: zero_pad_def digs_pos)
qed

lemma drop_upd: "i < length b \<Longrightarrow> drop i (b[i := d]) = d # drop (Suc i) b"
  by (simp add: Cons_nth_drop_Suc [symmetric] drop_update_swap)

lemma itoa_loop_correct:
  assumes "0 \<le> bp" "bp \<le> int (length b)" "bp < 2 ^ 63"
    and "int (length (digs u)) \<le> bp" "wid \<le> bp"
    and "- (2 ^ 63) + int (length (digs u)) \<le> wid"
  shows "\<exists>b'. itoa_loop u wid bp b =
            Some (bp - int (length (zero_pad (nat wid) (digs u))), b') \<and>
          drop (nat (bp - int (length (zero_pad (nat wid) (digs u))))) b' =
            zero_pad (nat wid) (digs u) @ drop (nat bp) b"
  using assms
proof (induction u wid bp b rule: itoa_loop.induct)
  case (1 u wid bp b)
  show ?case
  proof (cases "0 < u \<or> 0 < wid")
    case False
    then show ?thesis
      by (simp add: itoa_loop.simps zero_pad_def digs_0)
  next
    case True
    define d where "d = digit (u mod 10)"
    define r' where "r' = zero_pad (nat (wid - 1)) (digs (u div 10))"
    have r: "zero_pad (nat wid) (digs u) = r' @ [d]"
      using pad_step [OF True] by (simp add: r'_def d_def)
    have len_div: "int (length (digs (u div 10))) \<le> bp - 1"
    proof (cases "u = 0")
      case True
      with \<open>0 < u \<or> 0 < wid\<close> "1.prems" show ?thesis by (simp add: digs_0)
    next
      case False
      with "1.prems" show ?thesis by (simp add: digs_pos)
    qed
    have bp1: "0 \<le> bp - 1"
      using len_div by linarith
    have low: "- (2 ^ 63) + int (length (digs (u div 10))) \<le> wid - 1"
    proof (cases "u = 0")
      case True
      with \<open>0 < u \<or> 0 < wid\<close> show ?thesis by (simp add: digs_0)
    next
      case False
      with "1.prems"(6) show ?thesis by (simp add: digs_pos)
    qed
    have nowrap: "wrap64 (wid - 1) = wid - 1"
    proof -
      have "- (2 ^ 63) \<le> wid - 1" using low by linarith
      moreover have "wid - 1 < 2 ^ 63" using "1.prems"(3,5) by linarith
      ultimately show ?thesis by (simp add: wrap64_def)
    qed
    have inb: "\<not> (bp - 1 < 0 \<or> int (length b) \<le> bp - 1)"
      using bp1 "1.prems"(2) by linarith
    have unfold: "itoa_loop u wid bp b = itoa_loop (u div 10) (wid - 1) (bp - 1) (b[nat (bp - 1) := d])"
      using True inb nowrap by (subst itoa_loop.simps) (simp add: Let_def d_def)
    have "\<exists>b'. itoa_loop (u div 10) (wid - 1) (bp - 1) (b[nat (bp - 1) := d]) =
            Some (bp - 1 - int (length r'), b') \<and>
          drop (nat (bp - 1 - int (length r'))) b' = r' @ drop (nat (bp - 1)) (b[nat (bp - 1) := d])"
      unfolding r'_def d_def
    proof (rule "1.IH" [where x = "bp - 1" and xa = "wrap64 (wid - 1)", unfolded nowrap])
      show "0 < u \<or> 0 < wid" by (rule True)
      show "bp - 1 = bp - 1" ..
      show "wid - 1 = wid - 1" ..
      show "\<not> (bp - 1 < 0 \<or> int (length b) \<le> bp - 1)" by (rule inb)
      show "0 \<le> bp - 1" by (rule bp1)
      show "bp - 1 \<le> int (length (b[nat (bp - 1) := digit (u mod 10)]))"
        using "1.prems"(2) by simp
      show "bp - 1 < 2 ^ 63" using "1.prems"(3) by simp
      show "int (length (digs (u div 10))) \<le> bp - 1" by (rule len_div)
      show "wid - 1 \<le> bp - 1" using "1.prems"(5) by simp
      show "- (2 ^ 63) + int (length (digs (u div 10))) \<le> wid - 1" by (rule low)
    qed
    then obtain b' where b': "itoa_loop (u div 10) (wid - 1) (bp - 1) (b[nat (bp - 1) := d]) =
            Some (bp - 1 - int (length r'), b')"
      and dr: "drop (nat (bp - 1 - int (length r'))) b' = r' @ drop (nat (bp - 1)) (b[nat (bp - 1) := d])"
      by blast
    have "nat (bp - 1) < length b" using bp1 "1.prems"(2) by linarith
    then have "drop (nat (bp - 1)) (b[nat (bp - 1) := d]) = d # drop (Suc (nat (bp - 1))) b"
      by (rule drop_upd)
    moreover have "Suc (nat (bp - 1)) = nat bp" using bp1 by linarith
    ultimately have "drop (nat (bp - 1 - int (length r'))) b' = (r' @ [d]) @ drop (nat bp) b"
      using dr by simp
    moreover have "bp - int (length (r' @ [d])) = bp - 1 - int (length r')" by simp
    ultimately show ?thesis
      using unfold b' unfolding r by metis
  qed
qed


lemma uint_bound: "uint i < 10 ^ 20"
proof -
  have "i mod 2 ^ 64 < 2 ^ 64" by simp
  then have "uint i < 2 ^ 64" unfolding uint_def by (simp add: nat_less_iff)
  also have "(2::nat) ^ 64 < 10 ^ 20" by simp
  finally show ?thesis .
qed

lemma zero_pad_decimal: "u \<noteq> 0 \<or> 1 < w \<Longrightarrow> zero_pad w (digs u) = zero_pad w (decimal u)"
proof (cases "u = 0")
  case True
  assume "u \<noteq> 0 \<or> 1 < w"
  with True have "w = Suc (w - 1)" by simp
  then have "replicate w CHR ''0'' = replicate (w - 1) CHR ''0'' @ ''0''"
    by (metis replicate_Suc replicate_append_same)
  with True show ?thesis by (simp add: zero_pad_def decimal_def digs_0)
next
  case False
  then show ?thesis by (simp add: decimal_def)
qed

lemma itoa_correct:
  assumes "wid \<le> 32" and "- (2 ^ 63) + 20 \<le> wid"
  shows "itoa i wid = Some (zero_pad (nat wid) (decimal (uint i)))"
proof (cases "uint i = 0 \<and> wid \<le> 1")
  case True
  then have "nat wid - Suc 0 = 0" by arith
  with True show ?thesis by (simp add: itoa_def zero_pad_def decimal_def)
next
  case False
  define u where "u = uint i"
  define r where "r = zero_pad (nat wid) (digs u)"
  have len: "length (digs u) \<le> 20"
    unfolding u_def by (rule length_digs) (rule uint_bound)
  have "\<exists>b'. itoa_loop u wid 32 (replicate 32 (CHR 0x00)) = Some (32 - int (length r), b') \<and>
          drop (nat (32 - int (length r))) b' = r @ drop (nat 32) (replicate 32 (CHR 0x00))"
    unfolding r_def using assms len by (intro itoa_loop_correct) simp_all
  then obtain b' where run: "itoa_loop u wid 32 (replicate 32 (CHR 0x00)) = Some (32 - int (length r), b')"
    and dr: "drop (nat (32 - int (length r))) b' = r" by auto
  from False have "u \<noteq> 0 \<or> 1 < nat wid" unfolding u_def by auto
  then have r_eq: "r = zero_pad (nat wid) (decimal u)" unfolding r_def by (rule zero_pad_decimal)
  from False have "itoa i wid =
      (case itoa_loop u wid 32 (replicate 32 (CHR 0x00)) of
         None \<Rightarrow> None | Some (bp, b) \<Rightarrow> Some (drop (nat bp) b))"
    by (auto simp add: itoa_def u_def Let_def)
  also have "\<dots> = Some r" by (simp add: run dr)
  finally show ?thesis by (simp add: r_eq u_def)
qed

lemma itoa_loop_panic:
  assumes "0 \<le> bp" "bp < wid" "wid < 2 ^ 63"
  shows "itoa_loop u wid bp b = None"
  using assms
proof (induction u wid bp b rule: itoa_loop.induct)
  case (1 u wid bp b)
  have pos: "0 < u \<or> 0 < wid" using "1.prems" by linarith
  have nowrap: "wrap64 (wid - 1) = wid - 1" using "1.prems" by (simp add: wrap64_def)
  show ?case
  proof (cases "bp - 1 < 0 \<or> int (length b) \<le> bp - 1")
    case True
    with pos show ?thesis by (subst itoa_loop.simps) (simp add: Let_def)
  next
    case False
    have "itoa_loop (u div 10) (wid - 1) (bp - 1) (b[nat (bp - 1) := digit (u mod 10)]) = None"
    proof (rule "1.IH" [where x = "bp - 1" and xa = "wrap64 (wid - 1)", unfolded nowrap])
      show "0 < u \<or> 0 < wid" by (rule pos)
      show "bp - 1 = bp - 1" ..
      show "wid - 1 = wid - 1" ..
      show "\<not> (bp - 1 < 0 \<or> int (length b) \<le> bp - 1)" by (rule False)
      show "0 \<le> bp - 1" using False by simp
      show "bp - 1 < wid - 1" using "1.prems" by simp
      show "wid - 1 < 2 ^ 63" using "1.prems" by simp
    qed
    with pos False nowrap show ?thesis by (subst itoa_loop.simps) (simp add: Let_def)
  qed
qed

lemma itoa_panic: "32 < wid \<Longrightarrow> wid < 2 ^ 63 \<Longrightarrow> itoa i wid = None"
  by (simp add: itoa_def itoa_loop_panic)

lemma digit_simps:
  "digit 0 = CHR ''0''" "digit 1 = CHR ''1''" "digit 2 = CHR ''2''" "digit 3 = CHR ''3''"
  "digit 4 = CHR ''4''" "digit 5 = CHR ''5''" "digit 6 = CHR ''6''" "digit 7 = CHR ''7''"
  "digit 8 = CHR ''8''" "digit 9 = CHR ''9''" "digit (Suc 0) = CHR ''1''"
  by code_simp+

lemma replicate_numeral: "replicate (numeral k) x = x # replicate (pred_numeral k) x"
  by (simp add: numeral_eq_Suc)

lemma digs_numeral:
  "digs (numeral k) = digs (numeral k div 10) @ [digit (numeral k mod 10)]"
  by (rule digs_pos) simp

lemma digs_1: "digs (Suc 0) = ''1''" "digs 1 = ''1''"
  by (simp_all add: digs_pos digs_0 digit_simps)

lemmas decimal_eval = replicate_numeral decimal_def digs_numeral digs_0 digs_1 digit_simps zero_pad_def uint_def

lemma length_zero_pad: "length (zero_pad w s) = max w (length s)"
  by (simp add: zero_pad_def)

lemma no_time_flags:
  assumes "f AND Ldate = 0" "f AND Ltime = 0" "f AND Lmicroseconds = 0"
  shows "f AND (Ldate OR Ltime OR Lmicroseconds) = 0"
  using assms by (simp add: bit.conj_disj_distrib)

section \<open>Facts about formatHeader and Output\<close>

lemma formatHeader_value:
  "formatHeader l t =
     Some (if flag l AND (Ldate OR Ltime OR Lmicroseconds) \<noteq> 0 then
             (if flag l AND Ldate \<noteq> 0 then
                zero_pad 4 (decimal (uint (Year t))) @ ''/'' @
                zero_pad 2 (decimal (uint (Month t))) @ ''/'' @
                zero_pad 2 (decimal (uint (Day t)))
              else []) @
             (if flag l AND (Ltime OR Lmicroseconds) \<noteq> 0 then
                '' '' @ zero_pad 2 (decimal (uint (Hour t))) @ '':'' @
                zero_pad 2 (decimal (uint (Minute t))) @ '':'' @
                zero_pad 2 (decimal (uint (Second t))) @
                (if flag l AND Lmicroseconds \<noteq> 0 then
                   ''.'' @ zero_pad 6 (decimal (uint (quo (Nanosecond t) 1000)))
                 else [])
              else []) @ '' ''
           else [])"
  by (simp add: formatHeader_def itoa_correct)

lemma formatHeader_last:
  "formatHeader l t = Some h \<Longrightarrow> h = [] \<or> last h = CHR '' ''"
  unfolding formatHeader_value by (auto split: if_splits)

lemma formatHeader_total: "\<exists>h. formatHeader l t = Some h"
  by (simp add: formatHeader_value)

lemma Output_buf_total: "\<exists>buf. Output_buf rt l calldepth p s = Some buf"
proof -
  obtain h where "formatHeader l (Now rt) = Some h" using formatHeader_total by blast
  then show ?thesis by (simp add: Output_buf_def Let_def)
qed

lemma Output_finfo_last:
  "Output_finfo rt l calldepth = [] \<or> last (Output_finfo rt l calldepth) = CHR '' ''"
  by (simp add: Output_finfo_def Let_def split: prod.splits option.splits)

lemma Output_buf_pre:
  "\<exists>pre. (pre = [] \<or> last pre \<noteq> CHR 0x0A) \<and>
     Output_buf rt l calldepth p s =
       Some (pre @ s @ (if last s = CHR 0x0A then [] else [CHR 0x0A]))"
proof -
  obtain h where h: "formatHeader l (Now rt) = Some h" using formatHeader_total by blast
  define fi where "fi = Output_finfo rt l calldepth"
  define tag where "tag = (if flag l AND Lsyslog = 0 then ''<'' @ fmt_d p @ ''>:'' @ h else [])"
  have buf: "Output_buf rt l calldepth p s =
      Some ((tag @ fi) @ s @ (if last s = CHR 0x0A then [] else [CHR 0x0A]))"
    using h by (simp add: Output_buf_def Let_def tag_def fi_def)
  have fi: "fi = [] \<or> last fi = CHR '' ''"
    unfolding fi_def by (rule Output_finfo_last)
  have tag: "tag = [] \<or> last tag = CHR '':'' \<or> last tag = CHR '' ''"
    using formatHeader_last [OF h] by (auto simp add: tag_def)
  have "tag @ fi = [] \<or> last (tag @ fi) \<noteq> CHR 0x0A"
    using fi tag by (cases "fi = []") auto
  with buf show ?thesis by blast
qed

lemma two_newlines:
  assumes "s \<noteq> []" and "pre = [] \<or> last pre \<noteq> CHR 0x0A"
    and "take 2 (rev s) \<noteq> [CHR 0x0A, CHR 0x0A]"
  shows "take 2 (rev (pre @ s @ (if last s = CHR 0x0A then [] else [CHR 0x0A]))) \<noteq>
           [CHR 0x0A, CHR 0x0A]"
proof -
  from assms(1) obtain ys y where s: "s = ys @ [y]" by (cases s rule: rev_cases) auto
  show ?thesis
  proof (cases "y = CHR 0x0A")
    case False
    with s show ?thesis by simp
  next
    case True
    show ?thesis
    proof (cases ys rule: rev_cases)
      case Nil
      show ?thesis
      proof (cases pre rule: rev_cases)
        case Nil
        with \<open>ys = []\<close> s True show ?thesis by simp
      next
        case (snoc ps q)
        with assms(2) have "q \<noteq> CHR 0x0A" by simp
        with snoc \<open>ys = []\<close> s True show ?thesis by simp
      qed
    next
      case (snoc zs z)
      with s True assms(3) show ?thesis by simp
    qed
  qed
qed

lemma formatHeader_prefix: "formatHeader (l\<lparr>prefix := q\<rparr>) t = formatHeader l t"
  by (simp add: formatHeader_def)

lemma Output_finfo_prefix: "Output_finfo rt (l\<lparr>prefix := q\<rparr>) calldepth = Output_finfo rt l calldepth"
  by (simp add: Output_finfo_def)

lemma Output_buf_prefix: "Output_buf rt (l\<lparr>prefix := q\<rparr>) calldepth p s = Output_buf rt l calldepth p s"
  by (simp add: Output_buf_def formatHeader_prefix Output_finfo_prefix)

lemma formatHeader_prio: "formatHeader (l\<lparr>prio := q\<rparr>) t = formatHeader l t"
  by (simp add: formatHeader_def)

lemma Output_finfo_prio: "Output_finfo rt (l\<lparr>prio := q\<rparr>) calldepth = Output_finfo rt l calldepth"
  by (simp add: Output_finfo_def)

lemma Output_buf_prio: "Output_buf rt (l\<lparr>prio := q\<rparr>) calldepth p s = Output_buf rt l calldepth p s"
  by (simp add: Output_buf_def formatHeader_prio Output_finfo_prio)

lemma formatHeader_2009:
  "formatHeader (l\<lparr>flag := Ldate OR Ltime OR Lmicroseconds\<rparr>)
       \<lparr>Year = 2009, Month = 1, Day = 23, Hour = 1, Minute = 23, Second = 23,
        Nanosecond = 123123000\<rparr> = Some ''2009/01/23 01:23:23.123123 ''"
  by (simp add: formatHeader_def flag_defs quo_def itoa_correct decimal_eval)

lemma ex_header: "formatHeader ex_logger ex_time = Some ''2009/01/23 01:23:23 ''"
  by (simp add: formatHeader_def ex_logger_def ex_time_def flag_defs itoa_correct decimal_eval)

lemma ex_Info_buf:
  "Output_buf ex_runtime ex_logger 0 LOG_INFO ''hello'' =
     Some (''<2>:2009/01/23 01:23:23 hello'' @ [CHR 0x0A])"
proof -
  have "flag ex_logger AND Lsyslog = 0" by (simp add: ex_logger_def flag_defs)
  then show ?thesis
    using ex_header
    by (simp add: Output_buf_def Output_finfo_def ex_runtime_def prio_defs fmt_d_def decimal_eval)
qed

lemma ex_hello:
  "Output ex_runtime ex_logger 0 LOG_INFO ''hello'' =
     Some (nil, ex_logger\<lparr>logch := [''<2>:2009/01/23 01:23:23 hello'' @ [CHR 0x0A]]\<rparr>)"
  "Output ex_runtime ex_logger 0 LOG_INFO ''hello\<newline>'' =
     Some (nil, ex_logger\<lparr>logch := [''<2>:2009/01/23 01:23:23 hello\<newline>'']\<rparr>)"
  by (simp_all add: Output_def Output_buf_def Output_finfo_def formatHeader_def ex_logger_def
      ex_runtime_def ex_time_def flag_defs prio_defs fmt_d_def itoa_correct decimal_eval)

section \<open>Facts about the leveled methods, Backtrace and Fatal\<close>

lemma leveled_body:
  assumes "Sprintf format v w = (s, w')"
  shows "\<exists>buf. Output_buf rt l calldepth p s = Some buf \<and>
    (case Sprintf format v w of (s, w') \<Rightarrow>
       do { (e, l') \<leftarrow> Output rt l calldepth p s; Some (l', w') }) =
    Some (if s = [] then l else l\<lparr>logch := logch l @ [buf]\<rparr>, w')"
proof -
  obtain buf where "Output_buf rt l calldepth p s = Some buf"
    using Output_buf_total by blast
  with assms show ?thesis by (simp add: Output_def)
qed

lemma Debug_eq:
  assumes "LOG_NONE \<le> prio l" and "Sprintf format v w = (s, w')"
  shows "\<exists>buf. Output_buf rt l 2 LOG_DEBUG s = Some buf \<and>
    Debug rt Sprintf l format v w =
      (if prio l \<le> LOG_DEBUG
       then Some (if s = [] then l else l\<lparr>logch := logch l @ [buf]\<rparr>, w')
       else Some (l, w))"
  using leveled_body [of Sprintf format v w s w' rt l 2 LOG_DEBUG] assms
  by (auto simp add: Debug_def Loggable_def)

lemma Info_eq:
  assumes "LOG_NONE \<le> prio l" and "Sprintf format v w = (s, w')"
  shows "\<exists>buf. Output_buf rt l 0 LOG_INFO s = Some buf \<and>
    Info rt Sprintf l format v w =
      (if prio l \<le> LOG_INFO
       then Some (if s = [] then l else l\<lparr>logch := logch l @ [buf]\<rparr>, w')
       else Some (l, w))"
  using leveled_body [of Sprintf format v w s w' rt l 0 LOG_INFO] assms
  by (auto simp add: Info_def Loggable_def)

lemma Warn_eq:
  assumes "LOG_NONE \<le> prio l" and "Sprintf format v w = (s, w')"
  shows "\<exists>buf. Output_buf rt l 0 LOG_WARNING s = Some buf \<and>
    Warn rt Sprintf l format v w =
      (if prio l \<le> LOG_WARNING
       then Some (if s = [] then l else l\<lparr>logch := logch l @ [buf]\<rparr>, w')
       else Some (l, w))"
  using leveled_body [of Sprintf format v w s w' rt l 0 LOG_WARNING] assms
  by (auto simp add: Warn_def Loggable_def)

lemma Error_eq:
  assumes "LOG_NONE \<le> prio l" and "Sprintf format v w = (s, w')"
  shows "\<exists>buf. Output_buf rt l 2 LOG_ERR s = Some buf \<and>
    Error rt Sprintf l format v w =
      (if prio l \<le> LOG_ERR
       then Some (if s = [] then l else l\<lparr>logch := logch l @ [buf]\<rparr>, w')
       else Some (l, w))"
  using leveled_body [of Sprintf format v w s w' rt l 2 LOG_ERR] assms
  by (auto simp add: Error_def Loggable_def)

lemma Crit_eq:
  assumes "LOG_NONE \<le> prio l" and "Sprintf format v w = (s, w')"
  shows "\<exists>buf. Output_buf rt l 2 LOG_CRIT s = Some buf \<and>
    Crit rt Sprintf l format v w =
      (if prio l \<le> LOG_CRIT
       then Some (if s = [] then l else l\<lparr>logch := logch l @ [buf]\<rparr>, w')
       else Some (l, w))"
  using leveled_body [of Sprintf format v w s w' rt l 2 LOG_CRIT] assms
  by (auto simp add: Crit_def Loggable_def)

lemma Callers_nth:
  "k \<le> length pc \<Longrightarrow> map (\<lambda>i. f (pc ! i)) [0 ..< k] = map f (take k pc)"
  by (simp add: list_eq_iff_nth_eq)

lemma Backtrace_all:
  "Backtrace rt l 0 =
     l\<lparr>logch := logch l @
        [''Backtrace:'' @ [CHR 0x0A] @ ''    '' @
         Join (map (frame_string rt) (take 64 (drop 3 (Stack rt))) @ [[CHR 0x0A]])
              ([CHR 0x0A] @ ''    '')]\<rparr>"
  by (simp add: Backtrace_def runtime_Callers_def Let_def Callers_nth)

lemma Backtrace_depth:
  assumes "0 < depth" and "depth < int (length (take 64 (drop 3 (Stack rt))))"
  shows "Backtrace rt l depth =
     l\<lparr>logch := logch l @
        [''Backtrace:'' @ [CHR 0x0A] @ ''    '' @
         Join (map (frame_string rt) (take (nat depth) (drop 3 (Stack rt))) @ [[CHR 0x0A]])
              ([CHR 0x0A] @ ''    '')]\<rparr>"
proof -
  define pc where "pc = take 64 (drop 3 (Stack rt))"
  have le: "nat depth \<le> length pc" using assms(2) [folded pc_def] by linarith
  have "length pc \<le> 64" by (simp add: pc_def)
  with le have "nat depth \<le> 64" by linarith
  then have tk: "take (nat depth) pc = take (nat depth) (drop 3 (Stack rt))"
    by (simp add: pc_def min_def)
  have n: "(if depth = 0 \<or> depth > int (length pc) then int (length pc)
            else if int (length pc) > depth then depth else int (length pc)) = depth"
    using assms [folded pc_def] by simp
  have m: "map (\<lambda>i. frame_string rt (pc ! i)) [0 ..< nat depth] =
      map (frame_string rt) (take (nat depth) (drop 3 (Stack rt)))"
    using Callers_nth [OF le, of "frame_string rt"] tk by simp
  have "Backtrace rt l depth =
     l\<lparr>logch := logch l @
        [''Backtrace:'' @ [CHR 0x0A] @ ''    '' @
         Join (map (\<lambda>i. frame_string rt (pc ! i)) [0 ..< nat depth] @ [[CHR 0x0A]])
              ([CHR 0x0A] @ ''    '')]\<rparr>"
    unfolding Backtrace_def runtime_Callers_def Let_def pc_def [symmetric] n by simp
  then show ?thesis unfolding m .
qed

lemma ex_frames:
  "frame_string ex_runtime 103 = ''/a/b/c/d.go:23 [main.f]''"
  "frame_string ex_runtime 104 = ''/a/b/c/d.go:40 [main.main]''"
  "frame_string ex_runtime 105 = ''*unknown*''"
  by (simp_all add: frame_string_def ex_runtime_def fmt_d_def decimal_eval)

lemma ex_stack: "drop 3 (Stack ex_runtime) = [103, 104, 105]"
  by (simp add: ex_runtime_def)

lemma Fatal_eq:
  assumes "Sprintf format v w = (s, w')"
  shows "\<exists>buf. Output_buf rt l 2 LOG_EMERG s = Some buf \<and>
     Fatal rt Sprintf l format v w =
       Some (Exits 1,
             l\<lparr>logch := logch l @ (if s = [] then [] else [buf]) @
                [''Backtrace:'' @ [CHR 0x0A] @ ''    '' @
                 Join (map (frame_string rt) (take 64 (drop 3 (Stack rt))) @ [[CHR 0x0A]])
                      ([CHR 0x0A] @ ''    '')]\<rparr>,
             w')"
proof -
  obtain buf where buf: "Output_buf rt l 2 LOG_EMERG s = Some buf"
    using Output_buf_total by blast
  then have out: "Output rt l 2 LOG_EMERG s =
      Some (nil, if s = [] then l else l\<lparr>logch := logch l @ [buf]\<rparr>)"
    by (simp add: Output_def)
  show ?thesis
    using buf by (simp add: Fatal_def assms out Backtrace_all)
qed

lemma ex_bt:
  "map (frame_string ex_runtime) (take 64 (drop 3 (Stack ex_runtime))) =
     [''/a/b/c/d.go:23 [main.f]'', ''/a/b/c/d.go:40 [main.main]'', ''*unknown*'']"
  by (simp add: ex_stack ex_frames)

lemma ex_Fatal_buf:
  "Output_buf ex_runtime ex_logger 2 LOG_EMERG ''boom'' =
     Some (''<6>:2009/01/23 01:23:23 boom'' @ [CHR 0x0A])"
proof -
  have "flag ex_logger AND Lsyslog = 0" "flag ex_logger AND (Lshortfile OR Llongfile) = 0"
    by (simp_all add: ex_logger_def flag_defs)
  then show ?thesis
    using ex_header
    by (simp add: Output_buf_def Output_finfo_def ex_runtime_def prio_defs fmt_d_def decimal_eval)
qed

lemma ex_upper:
  "ascii_ToUpper ''syslog'' = ''SYSLOG''" "ascii_ToUpper ''/tmp/x.log'' = ''/TMP/X.LOG''"
  by code_simp+

section \<open>The claims\<close>

text \<open>
  C1 (amended). For each of \<open>Debug\<close>, \<open>Info\<close>, \<open>Warn\<close>, \<open>Error\<close>, \<open>Crit\<close> with its priority
  \<open>P\<close>, and a logger whose threshold \<open>T\<close> is one of \<open>LOG_NONE\<close> to \<open>LOG_EMERG\<close>: when
  \<open>P < T\<close> the call changes nothing and \<open>Sprintf\<close> is not run (the state \<open>w\<close> comes back);
  when \<open>P \<ge> T\<close> the message is formatted once, and the line that \<open>Output\<close> builds for it
  (call depth 2 for \<open>Debug\<close>, \<open>Error\<close>, \<open>Crit\<close>, 0 for \<open>Info\<close>, \<open>Warn\<close>) is sent, unless
  the formatted message is empty: then nothing is sent.
\<close>

theorem leveled_methods_threshold:
  assumes "LOG_NONE \<le> prio l" "prio l \<le> LOG_EMERG" and "Sprintf format v w = (s, w')"
  shows "(\<exists>buf. Output_buf rt l 2 LOG_DEBUG s = Some buf \<and>
            Debug rt Sprintf l format v w =
              (if prio l \<le> LOG_DEBUG
               then Some (if s = [] then l else l\<lparr>logch := logch l @ [buf]\<rparr>, w')
               else Some (l, w))) \<and>
         (\<exists>buf. Output_buf rt l 0 LOG_INFO s = Some buf \<and>
            Info rt Sprintf l format v w =
              (if prio l \<le> LOG_INFO
               then Some (if s = [] then l else l\<lparr>logch := logch l @ [buf]\<rparr>, w')
               else Some (l, w))) \<and>
         (\<exists>buf. Output_buf rt l 0 LOG_WARNING s = Some buf \<and>
            Warn rt Sprintf l format v w =
              (if prio l \<le> LOG_WARNING
               then Some (if s = [] then l else l\<lparr>logch := logch l @ [buf]\<rparr>, w')
               else Some (l, w))) \<and>
         (\<exists>buf. Output_buf rt l 2 LOG_ERR s = Some buf \<and>
            Error rt Sprintf l format v w =
              (if prio l \<le> LOG_ERR
               then Some (if s = [] then l else l\<lparr>logch := logch l @ [buf]\<rparr>, w')
               else Some (l, w))) \<and>
         (\<exists>buf. Output_buf rt l 2 LOG_CRIT s = Some buf \<and>
            Crit rt Sprintf l format v w =
              (if prio l \<le> LOG_CRIT
               then Some (if s = [] then l else l\<lparr>logch := logch l @ [buf]\<rparr>, w')
               else Some (l, w)))"
proof (intro conjI)
  show "\<exists>buf. Output_buf rt l 2 LOG_DEBUG s = Some buf \<and>
            Debug rt Sprintf l format v w =
              (if prio l \<le> LOG_DEBUG
               then Some (if s = [] then l else l\<lparr>logch := logch l @ [buf]\<rparr>, w')
               else Some (l, w))"
    using assms(1,3) by (rule Debug_eq)
  show "\<exists>buf. Output_buf rt l 0 LOG_INFO s = Some buf \<and>
            Info rt Sprintf l format v w =
              (if prio l \<le> LOG_INFO
               then Some (if s = [] then l else l\<lparr>logch := logch l @ [buf]\<rparr>, w')
               else Some (l, w))"
    using assms(1,3) by (rule Info_eq)
  show "\<exists>buf. Output_buf rt l 0 LOG_WARNING s = Some buf \<and>
            Warn rt Sprintf l format v w =
              (if prio l \<le> LOG_WARNING
               then Some (if s = [] then l else l\<lparr>logch := logch l @ [buf]\<rparr>, w')
               else Some (l, w))"
    using assms(1,3) by (rule Warn_eq)
  show "\<exists>buf. Output_buf rt l 2 LOG_ERR s = Some buf \<and>
            Error rt Sprintf l format v w =
              (if prio l \<le> LOG_ERR
               then Some (if s = [] then l else l\<lparr>logch := logch l @ [buf]\<rparr>, w')
               else Some (l, w))"
    using assms(1,3) by (rule Error_eq)
  show "\<exists>buf. Output_buf rt l 2 LOG_CRIT s = Some buf \<and>
            Crit rt Sprintf l format v w =
              (if prio l \<le> LOG_CRIT
               then Some (if s = [] then l else l\<lparr>logch := logch l @ [buf]\<rparr>, w')
               else Some (l, w))"
    using assms(1,3) by (rule Crit_eq)
qed

theorem leveled_methods_threshold_witness:
  "LOG_NONE \<le> prio ex_logger \<and> prio ex_logger \<le> LOG_EMERG \<and>
   Sprintf_plain ''hello'' () 0 = (''hello'', 1) \<and>
   Debug ex_runtime Sprintf_plain ex_logger ''hello'' () 0 = Some (ex_logger, 0) \<and>
   Info ex_runtime Sprintf_plain ex_logger ''hello'' () 0 =
     Some (ex_logger\<lparr>logch := [''<2>:2009/01/23 01:23:23 hello'' @ [CHR 0x0A]]\<rparr>, 1)"
  using leveled_methods_threshold [of ex_logger Sprintf_plain "''hello''" "()" 0 "''hello''" 1 ex_runtime]
    ex_Info_buf
  by (simp add: Sprintf_plain_def ex_logger_def prio_defs)

text \<open>
  The claim as stated fails on the empty message: with threshold \<open>LOG_INFO\<close>, \<open>Info\<close> on the
  format \<open>""\<close> formats (the counter goes to 1) and sends nothing.
\<close>

theorem leveled_empty_counterexample:
  "LOG_NONE \<le> prio ex_logger \<and> prio ex_logger \<le> LOG_INFO \<and>
   Info ex_runtime Sprintf_plain ex_logger [] () 0 = Some (ex_logger, 1)"
  by (simp add: Info_def Loggable_def Output_def Sprintf_plain_def ex_logger_def prio_defs)

text \<open>
  C2. For every calldepth, priority and message, \<open>Output\<close> returns the nil error and does not
  panic. On the empty message the logger is unchanged. On any other message one line is sent
  on the channel: the tag \<open><N>:\<close> and the header unless \<open>Lsyslog\<close> is set, the file
  information, the message, and a newline when the message has none at its end. No other
  error value can come back.
\<close>

theorem Output_returns_nil:
  "\<exists>h. formatHeader l (Now rt) = Some h \<and>
       Output rt l calldepth p s =
         Some (nil,
               if s = [] then l
               else l\<lparr>logch := logch l @
                      [(if flag l AND Lsyslog = 0 then ''<'' @ fmt_d p @ ''>:'' @ h else []) @
                       Output_finfo rt l calldepth @ s @
                       (if last s = CHR 0x0A then [] else [CHR 0x0A])]\<rparr>)"
proof -
  obtain h where h: "formatHeader l (Now rt) = Some h"
    using formatHeader_total by blast
  define buf where "buf =
      (if flag l AND Lsyslog = 0 then ''<'' @ fmt_d p @ ''>:'' @ h else []) @
      Output_finfo rt l calldepth @ s @ (if last s = CHR 0x0A then [] else [CHR 0x0A])"
  have buf: "Output_buf rt l calldepth p s = Some buf"
    using h by (simp add: Output_buf_def Let_def buf_def)
  have "Output rt l calldepth p s =
      Some (nil, if s = [] then l else l\<lparr>logch := logch l @ [buf]\<rparr>)"
  proof (cases "s = []")
    case True
    then show ?thesis by (simp add: Output_def)
  next
    case False
    with buf show ?thesis by (simp add: Output_def)
  qed
  with h show ?thesis unfolding buf_def by blast
qed

theorem Output_returns_nil_witness:
  "Output ex_runtime ex_logger 0 LOG_INFO [] = Some (nil, ex_logger) \<and>
   Output ex_runtime ex_logger 0 LOG_INFO ''hello'' =
     Some (nil, ex_logger\<lparr>logch := [''<2>:2009/01/23 01:23:23 hello\<newline>'']\<rparr>) \<and>
   Output ex_runtime (ex_logger\<lparr>flag := LstdFlags OR Llongfile\<rparr>) 2 LOG_CRIT ''disk full'' =
     Some (nil, ex_logger\<lparr>flag := LstdFlags OR Llongfile,
                 logch := [''<5>:2009/01/23 01:23:23 (/a/b/c/d.go:23) disk full\<newline>'']\<rparr>)"
  using Output_returns_nil [where l = ex_logger and rt = ex_runtime and calldepth = 0
      and p = LOG_INFO and s = "[]"]
    Output_returns_nil [where l = ex_logger and rt = ex_runtime and calldepth = 0
      and p = LOG_INFO and s = "''hello''"]
    Output_returns_nil [where l = "ex_logger\<lparr>flag := LstdFlags OR Llongfile\<rparr>"
      and rt = ex_runtime and calldepth = 2 and p = LOG_CRIT and s = "''disk full''"]
  by (simp add: Output_finfo_def formatHeader_def ex_logger_def
      ex_runtime_def ex_time_def flag_defs prio_defs fmt_d_def quo_def itoa_correct decimal_eval)

text \<open>
  C3 (amended). For a non-empty message, the line sent ends with the message, followed by
  exactly one added newline when the message does not end in a newline, and by nothing when it
  does: \<open>Output\<close> never adds a second one. The line ends in a newline, and it ends in two
  only when the message itself ends in two.
\<close>

theorem Output_one_newline:
  assumes "s \<noteq> []"
  shows "\<exists>pre line. line = pre @ s @ (if last s = CHR 0x0A then [] else [CHR 0x0A]) \<and>
           last line = CHR 0x0A \<and>
           (take 2 (rev s) \<noteq> [CHR 0x0A, CHR 0x0A] \<longrightarrow>
              take 2 (rev line) \<noteq> [CHR 0x0A, CHR 0x0A]) \<and>
           Output rt l calldepth p s = Some (nil, l\<lparr>logch := logch l @ [line]\<rparr>)"
proof -
  have "\<exists>pre. (pre = [] \<or> last pre \<noteq> CHR 0x0A) \<and>
     Output_buf rt l calldepth p s =
       Some (pre @ s @ (if last s = CHR 0x0A then [] else [CHR 0x0A]))"
    by (rule Output_buf_pre)
  then obtain pre where both: "(pre = [] \<or> last pre \<noteq> CHR 0x0A) \<and>
     Output_buf rt l calldepth p s =
       Some (pre @ s @ (if last s = CHR 0x0A then [] else [CHR 0x0A]))" ..
  from both have pre: "pre = [] \<or> last pre \<noteq> CHR 0x0A" by (rule conjunct1)
  from both have buf: "Output_buf rt l calldepth p s =
      Some (pre @ s @ (if last s = CHR 0x0A then [] else [CHR 0x0A]))" by (rule conjunct2)
  define line where "line = pre @ s @ (if last s = CHR 0x0A then [] else [CHR 0x0A])"
  have c2: "last line = CHR 0x0A"
    using assms by (simp add: line_def)
  have c4: "Output rt l calldepth p s = Some (nil, l\<lparr>logch := logch l @ [line]\<rparr>)"
    using buf assms by (simp add: Output_def line_def)
  have c3: "take 2 (rev s) \<noteq> [CHR 0x0A, CHR 0x0A] \<longrightarrow>
      take 2 (rev line) \<noteq> [CHR 0x0A, CHR 0x0A]"
  proof
    assume "take 2 (rev s) \<noteq> [CHR 0x0A, CHR 0x0A]"
    from two_newlines [OF assms pre this]
    show "take 2 (rev line) \<noteq> [CHR 0x0A, CHR 0x0A]"
      unfolding line_def .
  qed
  have "line = pre @ s @ (if last s = CHR 0x0A then [] else [CHR 0x0A]) \<and>
        last line = CHR 0x0A \<and>
        (take 2 (rev s) \<noteq> [CHR 0x0A, CHR 0x0A] \<longrightarrow>
           take 2 (rev line) \<noteq> [CHR 0x0A, CHR 0x0A]) \<and>
        Output rt l calldepth p s = Some (nil, l\<lparr>logch := logch l @ [line]\<rparr>)"
    using line_def c2 c3 c4 by (intro conjI)
  then show ?thesis
    by (intro exI)
qed

theorem Output_one_newline_witness:
  "''hello'' \<noteq> [] \<and> take 2 (rev ''hello'') \<noteq> [CHR 0x0A, CHR 0x0A] \<and>
   Output ex_runtime ex_logger 0 LOG_INFO ''hello'' =
     Some (nil, ex_logger\<lparr>logch := [''<2>:2009/01/23 01:23:23 hello'' @ [CHR 0x0A]]\<rparr>) \<and>
   Output ex_runtime ex_logger 0 LOG_INFO (''hello'' @ [CHR 0x0A]) =
     Some (nil, ex_logger\<lparr>logch := [''<2>:2009/01/23 01:23:23 hello'' @ [CHR 0x0A]]\<rparr>)"
  using Output_one_newline [of "''hello''" ex_runtime ex_logger 0 LOG_INFO]
  by (simp add: ex_hello)

text \<open>
  The claim as stated fails on a message that ends in two newlines: it is appended as it is,
  and the line sent ends in two newlines.
\<close>

theorem Output_two_newlines_counterexample:
  "''x\<newline>\<newline>'' \<noteq> [] \<and>
   Output ex_runtime ex_logger 0 LOG_INFO ''x\<newline>\<newline>'' =
     Some (nil, ex_logger\<lparr>logch := [''<2>:2009/01/23 01:23:23 x\<newline>\<newline>'']\<rparr>) \<and>
   take 2 (rev ''<2>:2009/01/23 01:23:23 x\<newline>\<newline>'') = [CHR 0x0A, CHR 0x0A]"
  by (simp add: Output_def Output_buf_def Output_finfo_def formatHeader_def ex_logger_def
      ex_runtime_def ex_time_def flag_defs prio_defs fmt_d_def quo_def itoa_correct decimal_eval)

text \<open>
  C4. For a non-empty message: with \<open>Lsyslog\<close> set, the line is the file information (when
  asked for) and the message, with no priority tag and no timestamp header in front; with
  \<open>Lsyslog\<close> clear, the line begins with \<open><N>:\<close>, \<open>N\<close> the priority in decimal, followed
  by what \<open>formatHeader\<close> returns.
\<close>

theorem Output_syslog_tag:
  assumes "s \<noteq> []"
  shows "(flag l AND Lsyslog \<noteq> 0 \<longrightarrow>
            Output rt l calldepth p s =
              Some (nil, l\<lparr>logch := logch l @
                      [Output_finfo rt l calldepth @ s @
                       (if last s = CHR 0x0A then [] else [CHR 0x0A])]\<rparr>)) \<and>
         (flag l AND Lsyslog = 0 \<longrightarrow>
            (\<exists>h. formatHeader l (Now rt) = Some h \<and>
              Output rt l calldepth p s =
                Some (nil, l\<lparr>logch := logch l @
                        [''<'' @ fmt_d p @ ''>:'' @ h @ Output_finfo rt l calldepth @ s @
                         (if last s = CHR 0x0A then [] else [CHR 0x0A])]\<rparr>)))"
proof -
  obtain h where "formatHeader l (Now rt) = Some h" using formatHeader_total by blast
  with assms show ?thesis by (simp add: Output_def Output_buf_def Let_def)
qed

theorem Output_syslog_tag_witness:
  "''hello'' \<noteq> [] \<and>
   Output ex_runtime (ex_logger\<lparr>flag := LstdFlags OR Lsyslog\<rparr>) 2 LOG_ERR ''hello'' =
     Some (nil, ex_logger\<lparr>flag := LstdFlags OR Lsyslog, logch := [''hello'' @ [CHR 0x0A]]\<rparr>) \<and>
   Output ex_runtime (ex_logger\<lparr>flag := LstdFlags OR Lshortfile\<rparr>) 2 LOG_ERR ''hello'' =
     Some (nil, ex_logger\<lparr>flag := LstdFlags OR Lshortfile,
                 logch := [''<4>:2009/01/23 01:23:23 (d.go:23) hello'' @ [CHR 0x0A]]\<rparr>)"
  using Output_syslog_tag [of "''hello''" "ex_logger\<lparr>flag := LstdFlags OR Lsyslog\<rparr>" ex_runtime 2 LOG_ERR]
    Output_syslog_tag [of "''hello''" "ex_logger\<lparr>flag := LstdFlags OR Lshortfile\<rparr>" ex_runtime 2 LOG_ERR]
  by (simp add: Output_finfo_def formatHeader_def ex_logger_def
      ex_runtime_def ex_time_def flag_defs prio_defs fmt_d_def quo_def itoa_correct decimal_eval)

text \<open>
  C5. On the timestamp 2009-01-23T01:23:23.123123 with flags \<open>Ldate|Ltime|Lmicroseconds\<close>,
  \<open>formatHeader\<close> returns \<open>2009/01/23 01:23:23.123123\<close> and a space; on every timestamp, when
  none of the three flags is set, it returns the empty string.
\<close>

theorem formatHeader_spec:
  "formatHeader (l\<lparr>flag := Ldate OR Ltime OR Lmicroseconds\<rparr>)
       \<lparr>Year = 2009, Month = 1, Day = 23, Hour = 1, Minute = 23, Second = 23,
        Nanosecond = 123123000\<rparr> = Some ''2009/01/23 01:23:23.123123 '' \<and>
   (flag l AND Ldate = 0 \<and> flag l AND Ltime = 0 \<and> flag l AND Lmicroseconds = 0 \<longrightarrow>
      formatHeader l t = Some [])"
  using formatHeader_2009 [of l] by (simp add: formatHeader_def no_time_flags)

theorem formatHeader_spec_witness:
  "formatHeader (ex_logger\<lparr>flag := Ldate OR Ltime OR Lmicroseconds\<rparr>) ex_time =
     Some ''2009/01/23 01:23:23.123123 '' \<and>
   Lshortfile AND Ldate = 0 \<and> Lshortfile AND Ltime = 0 \<and> Lshortfile AND Lmicroseconds = 0 \<and>
   formatHeader (ex_logger\<lparr>flag := Lshortfile\<rparr>) ex_time = Some []"
  using formatHeader_spec [of "ex_logger\<lparr>flag := Lshortfile\<rparr>" ex_time]
    formatHeader_spec [of "ex_logger\<lparr>flag := Ldate OR Ltime OR Lmicroseconds\<rparr>" ex_time]
  by (simp add: flag_defs ex_time_def)

text \<open>
  C6 (amended). \<open>Fatal\<close>, whatever the threshold, formats the message, has \<open>Output\<close> send
  its line at \<open>LOG_EMERG\<close> with call depth 2 (nothing is sent when the formatted message is
  empty), then sends the backtrace of all captured frames, then ends the process with status 1;
  it does not return. What is sent does not depend on the threshold.
\<close>

theorem Fatal_sequence:
  assumes "Sprintf format v w = (s, w')"
  shows "(\<exists>buf. Output_buf rt l 2 LOG_EMERG s = Some buf \<and>
     Fatal rt Sprintf l format v w =
       Some (Exits 1,
             l\<lparr>logch := logch l @ (if s = [] then [] else [buf]) @
                [''Backtrace:'' @ [CHR 0x0A] @ ''    '' @
                 Join (map (frame_string rt) (take 64 (drop 3 (Stack rt))) @ [[CHR 0x0A]])
                      ([CHR 0x0A] @ ''    '')]\<rparr>,
             w')) \<and>
     map_option (\<lambda>(c, l', w). (c, logch l', w)) (Fatal rt Sprintf (l\<lparr>prio := T\<rparr>) format v w) =
       map_option (\<lambda>(c, l', w). (c, logch l', w)) (Fatal rt Sprintf l format v w)"
proof -
  obtain buf where buf: "Output_buf rt l 2 LOG_EMERG s = Some buf"
    and run: "Fatal rt Sprintf l format v w =
       Some (Exits 1,
             l\<lparr>logch := logch l @ (if s = [] then [] else [buf]) @
                [''Backtrace:'' @ [CHR 0x0A] @ ''    '' @
                 Join (map (frame_string rt) (take 64 (drop 3 (Stack rt))) @ [[CHR 0x0A]])
                      ([CHR 0x0A] @ ''    '')]\<rparr>,
             w')"
    using Fatal_eq [of Sprintf format v w s w' rt l] assms by blast
  obtain buf' where buf': "Output_buf rt (l\<lparr>prio := T\<rparr>) 2 LOG_EMERG s = Some buf'"
    and run': "Fatal rt Sprintf (l\<lparr>prio := T\<rparr>) format v w =
       Some (Exits 1,
             l\<lparr>prio := T, logch := logch (l\<lparr>prio := T\<rparr>) @ (if s = [] then [] else [buf']) @
                [''Backtrace:'' @ [CHR 0x0A] @ ''    '' @
                 Join (map (frame_string rt) (take 64 (drop 3 (Stack rt))) @ [[CHR 0x0A]])
                      ([CHR 0x0A] @ ''    '')]\<rparr>,
             w')"
    using Fatal_eq [of Sprintf format v w s w' rt "l\<lparr>prio := T\<rparr>"] assms by auto
  have "buf' = buf" using buf buf' by (simp add: Output_buf_prio)
  then have same: "map_option (\<lambda>(c, l', w). (c, logch l', w)) (Fatal rt Sprintf (l\<lparr>prio := T\<rparr>) format v w) =
       map_option (\<lambda>(c, l', w). (c, logch l', w)) (Fatal rt Sprintf l format v w)"
    by (simp add: run run')
  from buf run same show ?thesis by blast
qed

theorem Fatal_sequence_witness:
  "Sprintf_plain ''boom'' () 0 = (''boom'', 1) \<and>
   Fatal ex_runtime Sprintf_plain ex_logger ''boom'' () 0 =
     Some (Exits 1,
           ex_logger\<lparr>logch :=
             [''<6>:2009/01/23 01:23:23 boom'' @ [CHR 0x0A],
              ''Backtrace:'' @ [CHR 0x0A] @ ''    /a/b/c/d.go:23 [main.f]'' @ [CHR 0x0A] @
              ''    /a/b/c/d.go:40 [main.main]'' @ [CHR 0x0A] @ ''    *unknown*'' @ [CHR 0x0A] @
              ''    '' @ [CHR 0x0A]]\<rparr>,
           1)"
  using Fatal_sequence [of Sprintf_plain "''boom''" "()" 0 "''boom''" 1 ex_runtime ex_logger]
    ex_Fatal_buf
  by (simp add: Sprintf_plain_def ex_bt) (simp add: ex_logger_def)

text \<open>
  The claim as stated fails on the empty message: \<open>Fatal\<close> on the format \<open>""\<close> sends the
  backtrace alone, no line at \<open>LOG_EMERG\<close> before it.
\<close>

theorem Fatal_empty_counterexample:
  "Fatal ex_runtime Sprintf_plain ex_logger [] () 0 =
     Some (Exits 1,
           ex_logger\<lparr>logch :=
             [''Backtrace:'' @ [CHR 0x0A] @ ''    /a/b/c/d.go:23 [main.f]'' @ [CHR 0x0A] @
              ''    /a/b/c/d.go:40 [main.main]'' @ [CHR 0x0A] @ ''    *unknown*'' @ [CHR 0x0A] @
              ''    '' @ [CHR 0x0A]]\<rparr>,
           1)"
  by (simp add: Fatal_def Output_def Sprintf_plain_def Backtrace_all ex_bt) (simp add: ex_logger_def)

text \<open>
  C7. \<open>Backtrace(0)\<close> renders every captured frame, at most 64 of them, starting three levels
  up; for \<open>0 < depth\<close> below the number of captured frames it renders the first \<open>depth\<close>
  frames, \<open>depth\<close> lines, followed by the entry that holds a newline. The block is sent on
  the channel whatever the threshold of the logger is.
\<close>

theorem Backtrace_frames:
  "length (take 64 (drop 3 (Stack rt))) \<le> 64 \<and>
   Backtrace rt l 0 =
     l\<lparr>logch := logch l @
        [''Backtrace:'' @ [CHR 0x0A] @ ''    '' @
         Join (map (frame_string rt) (take 64 (drop 3 (Stack rt))) @ [[CHR 0x0A]])
              ([CHR 0x0A] @ ''    '')]\<rparr> \<and>
   (0 < depth \<and> depth < int (length (take 64 (drop 3 (Stack rt)))) \<longrightarrow>
      length (map (frame_string rt) (take (nat depth) (drop 3 (Stack rt)))) = nat depth \<and>
      Backtrace rt l depth =
        l\<lparr>logch := logch l @
           [''Backtrace:'' @ [CHR 0x0A] @ ''    '' @
            Join (map (frame_string rt) (take (nat depth) (drop 3 (Stack rt))) @ [[CHR 0x0A]])
                 ([CHR 0x0A] @ ''    '')]\<rparr>)"
proof (intro conjI impI)
  show "length (take 64 (drop 3 (Stack rt))) \<le> 64" by simp
  show "Backtrace rt l 0 =
     l\<lparr>logch := logch l @
        [''Backtrace:'' @ [CHR 0x0A] @ ''    '' @
         Join (map (frame_string rt) (take 64 (drop 3 (Stack rt))) @ [[CHR 0x0A]])
              ([CHR 0x0A] @ ''    '')]\<rparr>"
    by (rule Backtrace_all)
next
  assume d: "0 < depth \<and> depth < int (length (take 64 (drop 3 (Stack rt))))"
  have "int (length (take 64 (drop 3 (Stack rt)))) \<le> int (length (drop 3 (Stack rt)))"
    by simp
  with d have "nat depth \<le> length (drop 3 (Stack rt))" by linarith
  then show "length (map (frame_string rt) (take (nat depth) (drop 3 (Stack rt)))) = nat depth"
    by simp
  from d show "Backtrace rt l depth =
        l\<lparr>logch := logch l @
           [''Backtrace:'' @ [CHR 0x0A] @ ''    '' @
            Join (map (frame_string rt) (take (nat depth) (drop 3 (Stack rt))) @ [[CHR 0x0A]])
                 ([CHR 0x0A] @ ''    '')]\<rparr>"
    by (simp add: Backtrace_depth)
qed

theorem Backtrace_frames_witness:
  "(0::int) < 2 \<and> 2 < int (length (take 64 (drop 3 (Stack ex_runtime)))) \<and>
   Backtrace ex_runtime (ex_logger\<lparr>prio := LOG_EMERG\<rparr>) 2 =
     ex_logger\<lparr>prio := LOG_EMERG, logch :=
       [''Backtrace:'' @ [CHR 0x0A] @ ''    /a/b/c/d.go:23 [main.f]'' @ [CHR 0x0A] @
        ''    /a/b/c/d.go:40 [main.main]'' @ [CHR 0x0A] @ ''    '' @ [CHR 0x0A]]\<rparr> \<and>
   Backtrace ex_runtime (ex_logger\<lparr>prio := LOG_EMERG\<rparr>) 0 =
     ex_logger\<lparr>prio := LOG_EMERG, logch :=
       [''Backtrace:'' @ [CHR 0x0A] @ ''    /a/b/c/d.go:23 [main.f]'' @ [CHR 0x0A] @
        ''    /a/b/c/d.go:40 [main.main]'' @ [CHR 0x0A] @ ''    *unknown*'' @ [CHR 0x0A] @
        ''    '' @ [CHR 0x0A]]\<rparr>"
  using Backtrace_frames [of ex_runtime "ex_logger\<lparr>prio := LOG_EMERG\<rparr>" 2]
  by (simp add: ex_stack ex_frames ex_logger_def numeral_2_eq_2)

text \<open>
  C8. \<open>NewLogger\<close> calls \<open>NewSyslog\<close> with the caller's priority, prefix and flags exactly
  when \<open>strings.ToUpper(name)\<close> is \<open>SYSLOG\<close>, and otherwise \<open>NewFilelog\<close> with the name as
  the path, the caller's priority and flags, and the empty prefix: the logger that comes back
  has the caller's prefix in the first case and none in the second.
\<close>

theorem NewLogger_dispatch:
  "NewLogger h name p pre f =
     (if ToUpper h name = ''SYSLOG'' then NewSyslog h p pre f else NewFilelog h name p [] f) \<and>
   (ToUpper h name = ''SYSLOG'' \<and> syslog_New h = Inr wr \<longrightarrow>
      NewLogger h name p pre f =
        (Some \<lparr>prio = p, prefix = pre, flag = f OR Lsyslog, out = wr, logch = []\<rparr>, nil)) \<and>
   (ToUpper h name \<noteq> ''SYSLOG'' \<and> OpenFile h name = Inr fd \<longrightarrow>
      NewLogger h name p pre f =
        (Some \<lparr>prio = p, prefix = [], flag = f, out = fd, logch = []\<rparr>, nil)) \<and>
   (ToUpper h name \<noteq> ''SYSLOG'' \<and> OpenFile h name = Inl err \<longrightarrow>
      fst (NewLogger h name p pre f) = None \<and> snd (NewLogger h name p pre f) \<noteq> nil)"
  by (simp add: NewLogger_def NewSyslog_def NewFilelog_def newLogger_def)

theorem NewLogger_dispatch_witness:
  "ToUpper ex_host ''syslog'' = ''SYSLOG'' \<and> syslog_New ex_host = Inr SyslogWriter \<and>
   NewLogger ex_host ''syslog'' LOG_INFO ''app'' LstdFlags =
     (Some \<lparr>prio = LOG_INFO, prefix = ''app'', flag = LstdFlags OR Lsyslog, out = SyslogWriter,
            logch = []\<rparr>, nil) \<and>
   ToUpper ex_host ''/tmp/x.log'' \<noteq> ''SYSLOG'' \<and>
   OpenFile ex_host ''/tmp/x.log'' = Inr (FileWriter ''/tmp/x.log'') \<and>
   NewLogger ex_host ''/tmp/x.log'' LOG_INFO ''app'' LstdFlags =
     (Some \<lparr>prio = LOG_INFO, prefix = [], flag = LstdFlags, out = FileWriter ''/tmp/x.log'',
            logch = []\<rparr>, nil)"
  using NewLogger_dispatch [of ex_host "''syslog''" LOG_INFO "''app''" LstdFlags SyslogWriter]
    NewLogger_dispatch [of ex_host "''/tmp/x.log''" LOG_INFO "''app''" LstdFlags _ "FileWriter ''/tmp/x.log''"]
  by (simp add: ex_host_def ex_upper NewSyslog_def NewFilelog_def newLogger_def)

text \<open>
  C9 (amended). For \<open>0 \<le> i\<close> and a width of at most 32, the size of the buffer (and not
  within 20 of the least \<open>int\<close>, so that \<open>wid--\<close> does not wrap), \<open>itoa\<close> returns the decimal
  numeral of \<open>i\<close> with zeros in front up to \<open>wid\<close> characters, which for \<open>i = 0\<close> and
  \<open>wid \<le> 1\<close> is the string \<open>0\<close>. A wider field is not rendered: the loop writes below the
  buffer and panics.
\<close>

theorem itoa_zero_padded:
  assumes "0 \<le> i" "i < 2 ^ 63" and "- (2 ^ 63) + 20 \<le> wid" "wid \<le> 32"
  shows "\<exists>s. itoa i wid = Some s \<and>
           s = (if i = 0 \<and> wid \<le> 1 then ''0'' else zero_pad (nat wid) (decimal (nat i))) \<and>
           length s = max (nat wid) (length (decimal (nat i)))"
proof -
  have u: "uint i = nat i" using assms(1,2) by (simp add: uint_def)
  have run: "itoa i wid = Some (zero_pad (nat wid) (decimal (nat i)))"
    using itoa_correct [OF assms(4,3), of i] by (simp add: u)
  have "nat wid - Suc 0 = 0" if "wid \<le> 1" using that by arith
  then have "zero_pad (nat wid) (decimal (nat i)) = ''0''" if "i = 0 \<and> wid \<le> 1"
    using that by (simp add: zero_pad_def decimal_def)
  then show ?thesis using run by (simp add: length_zero_pad)
qed

theorem itoa_zero_padded_witness:
  "(0::int) \<le> 7 \<and> (7::int) < 2 ^ 63 \<and> - (2 ^ 63) + 20 \<le> (3::int) \<and> (3::int) \<le> 32 \<and>
   itoa 7 3 = Some ''007'' \<and> itoa 2009 4 = Some ''2009'' \<and> itoa 0 1 = Some ''0''"
  using itoa_zero_padded [of 7 3] itoa_zero_padded [of 2009 4] itoa_zero_padded [of 0 1]
  by (simp add: decimal_eval)

theorem itoa_wide_counterexample: "itoa 5 33 = None"
  by (simp add: itoa_panic)

text \<open>
  C10. The line that \<open>Output\<close> sends does not depend on the prefix of the logger: two loggers
  that differ in the prefix only send the same string, and so does \<open>Backtrace\<close>. The prefix
  is kept, and \<open>Prefix\<close> reads what \<open>SetPrefix\<close> stored.
\<close>

theorem Output_ignores_prefix:
  "Output rt (l\<lparr>prefix := q\<rparr>) calldepth p s =
     map_option (\<lambda>(e, l'). (e, l'\<lparr>prefix := q\<rparr>)) (Output rt l calldepth p s) \<and>
   map_option (\<lambda>(e, l'). logch l') (Output rt (l\<lparr>prefix := q\<rparr>) calldepth p s) =
     map_option (\<lambda>(e, l'). logch l') (Output rt (l\<lparr>prefix := q'\<rparr>) calldepth p s) \<and>
   logch (Backtrace rt (l\<lparr>prefix := q\<rparr>) depth) = logch (Backtrace rt (l\<lparr>prefix := q'\<rparr>) depth) \<and>
   Prefix (SetPrefix l q) = q"
proof -
  obtain buf where buf: "Output_buf rt l calldepth p s = Some buf"
    using Output_buf_total by blast
  have 1: "Output rt (l\<lparr>prefix := r\<rparr>) calldepth p s =
      Some (nil, if s = [] then l\<lparr>prefix := r\<rparr> else l\<lparr>prefix := r, logch := logch l @ [buf]\<rparr>)" for r
    using buf by (simp add: Output_def Output_buf_prefix)
  have 2: "Output rt l calldepth p s =
      Some (nil, if s = [] then l else l\<lparr>logch := logch l @ [buf]\<rparr>)"
    using buf by (simp add: Output_def)
  have 3: "logch (Backtrace rt (l\<lparr>prefix := r\<rparr>) depth) = logch (Backtrace rt l depth)" for r
    by (simp add: Backtrace_def Let_def)
  show ?thesis
    by (simp add: 1 2 3 Prefix_def SetPrefix_def)
qed

end
